theory Spec2Isabelle
  imports Complex_Main
begin

section \<open>Python primitives used by the editor\<close>


text \<open>\<open>int(x)\<close> on a finite float truncates toward zero.\<close>

definition int_of_float :: "real \<Rightarrow> int" where
  "int_of_float x = (if 0 \<le> x then \<lfloor>x\<rfloor> else \<lceil>x\<rceil>)"





text \<open>\<open>round(x)\<close> with one argument rounds to the nearest integer, ties to the even one.\<close>

definition py_round :: "real \<Rightarrow> int" where
  "py_round x =
     (let f = \<lfloor>x\<rfloor>; d = x - of_int f
      in if d < 1 / 2 then f
         else if 1 / 2 < d then f + 1
         else if even f then f else f + 1)"








section \<open>Images and \<open>ImageTools\<close>\<close>

text \<open>
  A PIL image is its size, its mode and its pixel content. The pixel content is opaque
  to the editor; it is recorded as the term of library calls that produced it.
\<close>

datatype pixel_data =
    Loaded nat
  | Converted pixel_data
  | Resized pixel_data int int
  | Cropped pixel_data int int int int

record image =
  width :: int
  height :: int
  mode :: string
  pixels :: pixel_data

definition ensure_rgb :: "image \<Rightarrow> image" where
  "ensure_rgb img =
     (if mode img \<noteq> ''RGB'' then img\<lparr>mode := ''RGB'', pixels := Converted (pixels img)\<rparr>
      else img)"



text \<open>\<open>img.crop((left, top, right, bottom))\<close>: a new image of the size of the box.\<close>

definition pil_crop :: "image \<Rightarrow> int \<Rightarrow> int \<Rightarrow> int \<Rightarrow> int \<Rightarrow> image" where
  "pil_crop img left1 top1 right1 bottom1 =
     img\<lparr>width := right1 - left1, height := bottom1 - top1,
         pixels := Cropped (pixels img) left1 top1 right1 bottom1\<rparr>"

text \<open>\<open>ImageTools.crop\<close>\<close>

definition crop :: "image \<Rightarrow> int \<Rightarrow> int \<Rightarrow> int \<Rightarrow> int \<Rightarrow> image" where
  "crop img0 left0 top0 width0 height0 =
     (let img = ensure_rgb img0;
          right0 = left0 + width0;
          bottom0 = top0 + height0;
          left1 = max 0 (min left0 (width img - 1));
          top1 = max 0 (min top0 (height img - 1));
          right1 = max (left1 + 1) (min right0 (width img));
          bottom1 = max (top1 + 1) (min bottom0 (height img))
      in pil_crop img left1 top1 right1 bottom1)"

section \<open>Qt geometry used by the preview label\<close>

type_synonym qpoint = "int \<times> int"


text \<open>C++ integer division truncates toward zero.\<close>

definition c_div :: "int \<Rightarrow> int \<Rightarrow> int" where
  "c_div a b = sgn a * sgn b * (\<bar>a\<bar> div \<bar>b\<bar>)"


text \<open>A \<open>QPixmap\<close> is modelled by its size; the null pixmap \<open>QPixmap()\<close> has size 0 x 0.\<close>

record pixmap =
  pix_width :: int
  pix_height :: int

definition null_pixmap :: pixmap where
  "null_pixmap = \<lparr>pix_width = 0, pix_height = 0\<rparr>"

text \<open>
  \<open>QSize::scaled(s, Qt::KeepAspectRatio)\<close> of a size \<open>(wd, ht)\<close>: the largest size of the same
  aspect ratio inside \<open>s\<close>, computed in integers.
\<close>

definition qsize_scaled :: "int \<times> int \<Rightarrow> int \<times> int \<Rightarrow> int \<times> int" where
  "qsize_scaled sz s =
     (let wd = fst sz; ht = snd sz
      in if wd = 0 \<or> ht = 0 then s
         else (let rw = c_div (snd s * wd) ht
               in if rw \<le> fst s then (rw, snd s)
                  else (fst s, c_div (fst s * ht) wd)))"

text \<open>
  \<open>pixmap.scaled(w, h, Qt.AspectRatioMode.KeepAspectRatio, SmoothTransformation)\<close>: a null
  pixmap stays null, an empty target size gives a null pixmap, and otherwise the result
  has the aspect-preserving size, at least 1 x 1.
\<close>

definition scaled :: "pixmap \<Rightarrow> int \<Rightarrow> int \<Rightarrow> pixmap" where
  "scaled pm w h =
     (if pix_width pm \<le> 0 \<or> pix_height pm \<le> 0 then null_pixmap
      else if w < 1 \<or> h < 1 then null_pixmap
      else (let new_size = qsize_scaled (pix_width pm, pix_height pm) (w, h)
            in \<lparr>pix_width = max (fst new_size) 1, pix_height = max (snd new_size) 1\<rparr>))"

section \<open>\<open>CropLabel\<close>: the preview label\<close>

record crop_label =
  selecting :: bool
  start_pos :: "qpoint option"
  end_pos :: "qpoint option"
  zoom_factor :: real
  offset_x :: real
  offset_y :: real
  original_pixmap :: "pixmap option"
  aspect_ratio :: "real option"
  preview_rotate_angle :: real
  watermark_mode :: bool
  label_width :: int
  label_height :: int

text \<open>\<open>label_width\<close> and \<open>label_height\<close> are the size of \<open>contentsRect()\<close>.\<close>

text \<open>\<open>CropLabel.screen_to_image_coords\<close>\<close>

definition screen_to_image_coords :: "crop_label \<Rightarrow> qpoint \<Rightarrow> qpoint option" where
  "screen_to_image_coords lbl screen_pos =
     (case original_pixmap lbl of
        None \<Rightarrow> None
      | Some pm \<Rightarrow>
          (let scaled_width = int_of_float (of_int (pix_width pm) * zoom_factor lbl);
               scaled_height = int_of_float (of_int (pix_height pm) * zoom_factor lbl);
               scaled_pixmap = scaled pm scaled_width scaled_height;
               img_x = of_int ((label_width lbl - pix_width scaled_pixmap) div 2) + offset_x lbl;
               img_y = of_int ((label_height lbl - pix_height scaled_pixmap) div 2) + offset_y lbl;
               rel_x = of_int (fst screen_pos) - img_x;
               rel_y = of_int (snd screen_pos) - img_y
           in if pix_width scaled_pixmap > 0 \<and> pix_height scaled_pixmap > 0 then
                (let orig_x = (rel_x / of_int (pix_width scaled_pixmap)) * of_int (pix_width pm);
                     orig_y = (rel_y / of_int (pix_height scaled_pixmap)) * of_int (pix_height pm);
                     orig_x1 = py_round orig_x;
                     orig_y1 = py_round orig_y;
                     orig_x2 = max 0 (min orig_x1 (pix_width pm - 1));
                     orig_y2 = max 0 (min orig_y1 (pix_height pm - 1))
                 in Some (orig_x2, orig_y2))
              else None))"

text \<open>\<open>CropLabel.zoom_at_point\<close>\<close>

definition zoom_at_point :: "crop_label \<Rightarrow> qpoint \<Rightarrow> bool \<Rightarrow> crop_label" where
  "zoom_at_point lbl point zoom_in =
     (case original_pixmap lbl of
        None \<Rightarrow> lbl
      | Some pm \<Rightarrow>
          (let old_zoom = zoom_factor lbl;
               zoom_step = 1 / 10;
               new_zoom0 = (if zoom_in then old_zoom * (1 + zoom_step)
                            else old_zoom * (1 - zoom_step));
               new_zoom = max (1 / 10) (min 10 new_zoom0)
           in if \<bar>new_zoom - old_zoom\<bar> < 1 / 1000 then lbl
              else
                (let scaled_width = int_of_float (of_int (pix_width pm) * old_zoom);
                     scaled_height = int_of_float (of_int (pix_height pm) * old_zoom);
                     img_x = of_int ((label_width lbl - scaled_width) div 2) + offset_x lbl;
                     img_y = of_int ((label_height lbl - scaled_height) div 2) + offset_y lbl;
                     rel_x = of_int (fst point) - img_x;
                     rel_y = of_int (snd point) - img_y;
                     img_ratio_x = (if scaled_width > 0 \<and> scaled_height > 0
                                    then rel_x / of_int scaled_width else 1 / 2);
                     img_ratio_y = (if scaled_width > 0 \<and> scaled_height > 0
                                    then rel_y / of_int scaled_height else 1 / 2);
                     new_scaled_width = int_of_float (of_int (pix_width pm) * new_zoom);
                     new_scaled_height = int_of_float (of_int (pix_height pm) * new_zoom);
                     new_img_x = of_int (fst point) - img_ratio_x * of_int new_scaled_width;
                     new_img_y = of_int (snd point) - img_ratio_y * of_int new_scaled_height
                 in lbl\<lparr>zoom_factor := new_zoom,
                        offset_x := new_img_x
                                    - of_int ((label_width lbl - new_scaled_width) div 2),
                        offset_y := new_img_y
                                    - of_int ((label_height lbl - new_scaled_height) div 2)\<rparr>)))"

text \<open>\<open>CropLabel.set_original_pixmap\<close>\<close>

definition set_original_pixmap :: "crop_label \<Rightarrow> pixmap \<Rightarrow> crop_label" where
  "set_original_pixmap lbl pm =
     lbl\<lparr>original_pixmap := Some pm, zoom_factor := 1, offset_x := 0, offset_y := 0,
         preview_rotate_angle := 0\<rparr>"

text \<open>\<open>CropLabel.set_preview_rotate_angle\<close>\<close>

definition set_preview_rotate_angle :: "crop_label \<Rightarrow> real \<Rightarrow> crop_label" where
  "set_preview_rotate_angle lbl angle = lbl\<lparr>preview_rotate_angle := angle\<rparr>"

text \<open>\<open>CropLabel.clear_selection\<close>\<close>

definition clear_selection :: "crop_label \<Rightarrow> crop_label" where
  "clear_selection lbl = lbl\<lparr>selecting := False, start_pos := None, end_pos := None\<rparr>"

text \<open>\<open>CropLabel.set_zoom_factor\<close>: zoom about the centre of the label.\<close>

definition set_zoom_factor :: "crop_label \<Rightarrow> real \<Rightarrow> crop_label" where
  "set_zoom_factor lbl zoom_factor0 =
     (case original_pixmap lbl of
        None \<Rightarrow> lbl
      | Some pm \<Rightarrow>
          (let new_zoom = max (1 / 10) (min 10 zoom_factor0)
           in if \<bar>new_zoom - zoom_factor lbl\<bar> < 1 / 1000 then lbl
              else
                (let old_zoom = zoom_factor lbl;
                     scaled_width = int_of_float (of_int (pix_width pm) * old_zoom);
                     scaled_height = int_of_float (of_int (pix_height pm) * old_zoom);
                     img_x = of_int ((label_width lbl - scaled_width) div 2) + offset_x lbl;
                     img_y = of_int ((label_height lbl - scaled_height) div 2) + offset_y lbl;
                     center_x = of_int (label_width lbl) / 2;
                     center_y = of_int (label_height lbl) / 2;
                     rel_x = center_x - img_x;
                     rel_y = center_y - img_y;
                     img_ratio_x = (if scaled_width > 0 \<and> scaled_height > 0
                                    then rel_x / of_int scaled_width else 1 / 2);
                     img_ratio_y = (if scaled_width > 0 \<and> scaled_height > 0
                                    then rel_y / of_int scaled_height else 1 / 2);
                     new_scaled_width = int_of_float (of_int (pix_width pm) * new_zoom);
                     new_scaled_height = int_of_float (of_int (pix_height pm) * new_zoom);
                     new_img_x = center_x - img_ratio_x * of_int new_scaled_width;
                     new_img_y = center_y - img_ratio_y * of_int new_scaled_height
                 in lbl\<lparr>zoom_factor := new_zoom,
                        offset_x := new_img_x
                                    - of_int ((label_width lbl - new_scaled_width) div 2),
                        offset_y := new_img_y
                                    - of_int ((label_height lbl - new_scaled_height) div 2)\<rparr>)))"

text \<open>
  \<open>CropLabel.screen_rect_to_image_rect\<close>, in the order of the source: the size and centre
  of the rectangle in image pixels, the fit to the locked ratio, rounding, the shift into
  the image, the shrinking, the final clamp and the final ratio check.
\<close>









section \<open>\<open>MainWindow\<close>: the edit session\<close>

text \<open>
  A \<open>WorkerThread\<close> holds the \<open>ImageTools\<close> function it will call and the image it was given.
\<close>

datatype operation = OpScale real | OpRotate real | OpGrayscale | OpBlur real | OpVintage

record worker_thread =
  func :: operation
  arg_image :: image

text \<open>The message boxes the window can show.\<close>

datatype dialog = NothingToUndo | NothingToRedo | InvalidCropParameters

text \<open>
  The fields of \<open>MainWindow\<close> that the edit operations read or write. \<open>running\<close> is not a
  field of the class: it lists the threads on which \<open>start()\<close> was called and whose
  \<open>finished_image\<close> signal has not been delivered yet. \<open>dialogs\<close> logs the message boxes
  shown. The widgets are modelled by their values.
\<close>

record main_window =
  original_image :: "image option"
  current_image :: "image option"
  history :: "image list"
  redo_history :: "image list"
  worker :: "worker_thread option"
  running :: "worker_thread list"
  current_filter :: string
  preview_label :: crop_label
  s_slider :: int
  rotate_spin :: int
  blur_slider :: int
  crop_left :: string
  crop_top :: string
  crop_w :: string
  crop_h :: string
  dialogs :: "dialog list"

definition max_history :: nat where
  "max_history = 10"

text \<open>\<open>MainWindow.push_history\<close>\<close>

definition push_history :: "main_window \<Rightarrow> main_window" where
  "push_history s =
     (case current_image s of
        None \<Rightarrow> s
      | Some img \<Rightarrow>
          (let h = history s @ [img];
               h1 = (if length h > max_history then tl h else h)
           in s\<lparr>history := h1, redo_history := []\<rparr>))"

definition pil_to_qpixmap :: "image \<Rightarrow> pixmap" where
  "pil_to_qpixmap img = \<lparr>pix_width = width img, pix_height = height img\<rparr>"

text \<open>
  \<open>MainWindow.update_preview\<close>. The status texts, the watermark preview and the
  repainting are not modelled.
\<close>

definition update_preview :: "main_window \<Rightarrow> main_window" where
  "update_preview s =
     (case current_image s of
        None \<Rightarrow>
          s\<lparr>preview_label := clear_selection (set_original_pixmap (preview_label s) null_pixmap)\<rparr>
      | Some img \<Rightarrow>
          (let pix = pil_to_qpixmap img;
               lbl1 = set_original_pixmap (preview_label s) pix;
               slider_value = s_slider s;
               lbl2 = (if slider_value \<noteq> 100
                       then set_zoom_factor lbl1 (of_int slider_value / 100) else lbl1);
               rotate_angle = rotate_spin s;
               lbl3 = (if rotate_angle \<noteq> 0
                       then set_preview_rotate_angle lbl2 (of_int rotate_angle) else lbl2)
           in s\<lparr>preview_label := clear_selection lbl3\<rparr>))"

text \<open>\<open>MainWindow.open_image\<close>, once the file dialog has returned a path and the file is read.\<close>

definition open_image :: "main_window \<Rightarrow> image \<Rightarrow> main_window" where
  "open_image s img =
     update_preview (s\<lparr>original_image := Some img, current_image := Some img,
                       history := [], redo_history := []\<rparr>)"

text \<open>
  \<open>self.worker = WorkerThread(...)\<close> followed by \<open>self.worker.start()\<close>: the new thread
  replaces the reference and starts running; nothing is done about a previous thread.
\<close>

definition start_worker :: "main_window \<Rightarrow> worker_thread \<Rightarrow> main_window" where
  "start_worker s t = s\<lparr>worker := Some t, running := running s @ [t]\<rparr>"

text \<open>\<open>MainWindow.apply_scale\<close>\<close>

definition apply_scale :: "main_window \<Rightarrow> real \<Rightarrow> main_window" where
  "apply_scale s factor =
     (case current_image s of
        None \<Rightarrow> s
      | Some img \<Rightarrow>
          start_worker (push_history s) \<lparr>func = OpScale factor, arg_image = img\<rparr>)"

text \<open>\<open>MainWindow.apply_rotate\<close>\<close>

definition apply_rotate :: "main_window \<Rightarrow> real \<Rightarrow> main_window" where
  "apply_rotate s angle =
     (case current_image s of
        None \<Rightarrow> s
      | Some img \<Rightarrow>
          (let s1 = start_worker (push_history s) \<lparr>func = OpRotate angle, arg_image = img\<rparr>
           in s1\<lparr>preview_label := set_preview_rotate_angle (preview_label s1) 0,
                 rotate_spin := 0\<rparr>))"

text \<open>\<open>MainWindow.apply_filter\<close>\<close>

definition apply_filter :: "main_window \<Rightarrow> main_window" where
  "apply_filter s =
     (case current_image s of
        None \<Rightarrow> s
      | Some img \<Rightarrow>
          (let s1 = push_history s
           in if current_filter s1 = ''none'' then update_preview s1
              else if current_filter s1 = ''grayscale'' then
                start_worker s1 \<lparr>func = OpGrayscale, arg_image = img\<rparr>
              else if current_filter s1 = ''blur'' then
                start_worker s1 \<lparr>func = OpBlur (of_int (blur_slider s1) / 10), arg_image = img\<rparr>
              else if current_filter s1 = ''vintage'' then
                start_worker s1 \<lparr>func = OpVintage, arg_image = img\<rparr>
              else s1))"

text \<open>\<open>MainWindow.on_worker_finished\<close>\<close>

definition on_worker_finished :: "main_window \<Rightarrow> image \<Rightarrow> main_window" where
  "on_worker_finished s img =
     (update_preview (s\<lparr>current_image := Some img\<rparr>))\<lparr>worker := None\<rparr>"

text \<open>
  The thread \<open>t\<close> ends with the image \<open>img\<close>: its \<open>finished_image\<close> signal is delivered to
  \<open>on_worker_finished\<close>.
\<close>

definition worker_done :: "main_window \<Rightarrow> worker_thread \<Rightarrow> image \<Rightarrow> main_window" where
  "worker_done s t img = on_worker_finished (s\<lparr>running := remove1 t (running s)\<rparr>) img"

text \<open>\<open>MainWindow.apply_crop_rect\<close>\<close>

definition apply_crop_rect :: "main_window \<Rightarrow> int \<Rightarrow> int \<Rightarrow> int \<Rightarrow> int \<Rightarrow> main_window" where
  "apply_crop_rect s left0 top0 w0 h0 =
     (case current_image s of
        None \<Rightarrow> s
      | Some cur \<Rightarrow>
          (let left1 = max 0 (min left0 (width cur - 1));
               top1 = max 0 (min top0 (height cur - 1));
               w = max 1 (min w0 (width cur - left1));
               h = max 1 (min h0 (height cur - top1));
               s1 = push_history s;
               img = crop cur left1 top1 w h;
               s2 = update_preview (s1\<lparr>current_image := Some img\<rparr>)
           in s2\<lparr>preview_label := clear_selection (preview_label s2)\<rparr>))"


text \<open>\<open>MainWindow.undo\<close>\<close>

definition undo :: "main_window \<Rightarrow> main_window" where
  "undo s =
     (if history s = [] then s\<lparr>dialogs := dialogs s @ [NothingToUndo]\<rparr>
      else
        (let r1 = (case current_image s of
                     None \<Rightarrow> redo_history s
                   | Some cur \<Rightarrow>
                       (let r = redo_history s @ [cur]
                        in if length r > max_history then tl r else r))
         in update_preview (s\<lparr>redo_history := r1, current_image := Some (last (history s)),
                               history := butlast (history s)\<rparr>)))"

text \<open>\<open>MainWindow.redo\<close>\<close>

definition redo :: "main_window \<Rightarrow> main_window" where
  "redo s =
     (if redo_history s = [] then s\<lparr>dialogs := dialogs s @ [NothingToRedo]\<rparr>
      else
        (let h1 = (case current_image s of
                     None \<Rightarrow> history s
                   | Some cur \<Rightarrow>
                       (let h = history s @ [cur]
                        in if length h > max_history then tl h else h))
         in update_preview (s\<lparr>history := h1, current_image := Some (last (redo_history s)),
                               redo_history := butlast (redo_history s)\<rparr>)))"

text \<open>The history operations as commands, to speak about sequences of them.\<close>

datatype history_op = Push image | Undo | Redo

text \<open>
  \<open>Push img\<close> is one synchronous edit: the current image is pushed and \<open>img\<close>, the result
  of the edit, becomes the current image.
\<close>

fun run_op :: "main_window \<Rightarrow> history_op \<Rightarrow> main_window" where
  "run_op s (Push img) = update_preview ((push_history s)\<lparr>current_image := Some img\<rparr>)"
| "run_op s Undo = undo s"
| "run_op s Redo = redo s"

definition run_ops :: "main_window \<Rightarrow> history_op list \<Rightarrow> main_window" where
  "run_ops s ops = foldl run_op s ops"

text \<open>The window after \<open>__init__\<close>, with a label of the given size.\<close>

definition init_label :: "int \<Rightarrow> int \<Rightarrow> crop_label" where
  "init_label w h =
     \<lparr>selecting = False, start_pos = None, end_pos = None, zoom_factor = 1, offset_x = 0,
      offset_y = 0, original_pixmap = None, aspect_ratio = None, preview_rotate_angle = 0,
      watermark_mode = False, label_width = w, label_height = h\<rparr>"

definition init_window :: "int \<Rightarrow> int \<Rightarrow> main_window" where
  "init_window w h =
     \<lparr>original_image = None, current_image = None, history = [], redo_history = [],
      worker = None, running = [], current_filter = ''none'',
      preview_label = init_label w h, s_slider = 100, rotate_spin = 0, blur_slider = 20,
      crop_left = ''0'', crop_top = ''0'', crop_w = ''200'', crop_h = ''200'',
      dialogs = []\<rparr>"

text \<open>Both stacks within the bound.\<close>

definition bounded :: "main_window \<Rightarrow> bool" where
  "bounded s \<longleftrightarrow> length (history s) \<le> max_history \<and> length (redo_history s) \<le> max_history"


section \<open>An example session\<close>

text \<open>An 800 x 600 image loaded into a window whose preview label is 800 x 600.\<close>

definition photo :: "nat \<Rightarrow> image" where
  "photo n = \<lparr>width = 800, height = 600, mode = ''RGB'', pixels = Loaded n\<rparr>"

definition session :: main_window where
  "session = open_image (init_window 800 600) (photo 0)"



text \<open>The thread that \<open>apply_scale(1.2)\<close> starts on the example session.\<close>

definition scale_task :: worker_thread where
  "scale_task = \<lparr>func = OpScale (6 / 5), arg_image = photo 0\<rparr>"




text \<open>A 1000 x 333 image, shown at 10 percent in the 800 x 600 label.\<close>

definition wide :: image where
  "wide = \<lparr>width = 1000, height = 333, mode = ''RGB'', pixels = Loaded 1\<rparr>"

definition wide_label :: crop_label where
  "wide_label = set_zoom_factor (preview_label (open_image (init_window 800 600) wide)) (10 / 100)"

text \<open>The zoom factor that one step of \<open>zoom_at_point\<close> aims at.\<close>

definition zoom_target :: "real \<Rightarrow> bool \<Rightarrow> real" where
  "zoom_target z zin = max (1 / 10) (min 10 (if zin then z * (1 + 1 / 10) else z * (1 - 1 / 10)))"



section \<open>The undo and redo history\<close>

lemma update_preview_fields:
  "history (update_preview s) = history s"
  "redo_history (update_preview s) = redo_history s"
  "current_image (update_preview s) = current_image s"
  "worker (update_preview s) = worker s"
  "running (update_preview s) = running s"
  "dialogs (update_preview s) = dialogs s"
  by (simp_all add: update_preview_def Let_def split: option.split)

lemma push_history_fields:
  "current_image (push_history s) = current_image s"
  "worker (push_history s) = worker s"
  "running (push_history s) = running s"
  "dialogs (push_history s) = dialogs s"
  by (simp_all add: push_history_def Let_def split: option.split)

lemma push_history_bounded: "bounded s \<Longrightarrow> bounded (push_history s)"
  by (auto simp: bounded_def push_history_def Let_def max_history_def split: option.split)

lemma undo_bounded: "bounded s \<Longrightarrow> bounded (undo s)"
  by (auto simp: bounded_def undo_def Let_def max_history_def update_preview_fields split: option.split)

lemma redo_bounded: "bounded s \<Longrightarrow> bounded (redo s)"
  by (auto simp: bounded_def redo_def Let_def max_history_def update_preview_fields split: option.split)

lemma run_op_bounded: "bounded s \<Longrightarrow> bounded (run_op s x)"
proof (cases x)
  case (Push img)
  then show "bounded s \<Longrightarrow> bounded (run_op s x)"
    using push_history_bounded[of s] by (simp add: bounded_def update_preview_fields)
qed (simp_all add: undo_bounded redo_bounded)

lemma run_ops_bounded: "bounded s \<Longrightarrow> bounded (run_ops s ops)"
  unfolding run_ops_def by (induction ops arbitrary: s) (simp_all add: run_op_bounded)

lemma lastn_append:
  "drop (length (drop (length xs - n) xs @ ys) - n) (drop (length xs - n) xs @ ys)
   = drop (length (xs @ ys) - n) (xs @ ys)"
proof (cases "length xs \<le> n")
  case True
  then show ?thesis by simp
next
  case False
  then have "length (drop (length xs - n) xs) = n" by simp
  then show ?thesis using False by (simp add: add.commute)
qed

lemma push_history_Some:
  "current_image s = Some c \<Longrightarrow> length (history s) \<le> max_history \<Longrightarrow>
   history (push_history s) = drop (length (history s @ [c]) - max_history) (history s @ [c])"
proof (cases "length (history s) = max_history")
  case True
  assume "current_image s = Some c"
  with True show ?thesis
    by (cases "history s") (simp_all add: push_history_def Let_def max_history_def)
next
  case False
  assume "current_image s = Some c" "length (history s) \<le> max_history"
  with False show ?thesis
    by (simp add: push_history_def Let_def max_history_def)
qed

lemma run_pushes:
  "current_image s = Some c \<Longrightarrow> length (history s) \<le> max_history \<Longrightarrow>
   history (run_ops s (map Push imgs)) =
     drop (length (history s @ butlast (c # imgs)) - max_history) (history s @ butlast (c # imgs))
   \<and> current_image (run_ops s (map Push imgs)) = Some (last (c # imgs))"
proof (induction imgs arbitrary: s c)
  case Nil
  then show ?case by (simp add: run_ops_def)
next
  case (Cons i imgs)
  let ?s1 = "run_op s (Push i)"
  have c1: "current_image ?s1 = Some i" by (simp add: update_preview_fields)
  have h1: "history ?s1 = drop (length (history s @ [c]) - max_history) (history s @ [c])"
    using Cons.prems by (simp add: update_preview_fields push_history_Some)
  have l1: "length (history ?s1) \<le> max_history"
    using Cons.prems h1 by (simp add: max_history_def)
  have r: "run_ops s (map Push (i # imgs)) = run_ops ?s1 (map Push imgs)"
    by (simp add: run_ops_def)
  have b: "history s @ butlast (c # i # imgs) = (history s @ [c]) @ butlast (i # imgs)"
    by simp
  have "history (run_ops ?s1 (map Push imgs)) =
        drop (length ((history s @ [c]) @ butlast (i # imgs)) - max_history)
          ((history s @ [c]) @ butlast (i # imgs))"
    using Cons.IH[OF c1 l1] unfolding h1 by (simp only: lastn_append)
  moreover have "current_image (run_ops ?s1 (map Push imgs)) = Some (last (c # i # imgs))"
    using Cons.IH[OF c1 l1] by simp
  ultimately show ?case unfolding r b by simp
qed

lemma session_fields:
  "current_image session = Some (photo 0)" "history session = []" "redo_history session = []"
  "running session = []" "worker session = None" "dialogs session = []"
  by (simp_all add: session_def open_image_def update_preview_fields init_window_def)

text \<open>
  Claim C5. Starting from stacks within the bound \<open>max_history = 10\<close>, every sequence of
  push, undo and redo operations leaves both stacks within the bound. After loading an
  image and any number of pushes the undo stack holds the most recent \<open>max_history\<close> pushed
  images, the oldest being evicted first; after \<open>max_history + 5\<close> pushes it holds exactly
  \<open>max_history\<close> entries.
\<close>

theorem history_stacks_bounded:
  assumes "length (history s) \<le> max_history" and "length (redo_history s) \<le> max_history"
  shows "length (history (run_ops s ops)) \<le> max_history \<and>
         length (redo_history (run_ops s ops)) \<le> max_history \<and>
         history (run_ops (open_image s img0) (map Push imgs)) =
           drop (length (butlast (img0 # imgs)) - max_history) (butlast (img0 # imgs)) \<and>
         (length imgs = max_history + 5 \<longrightarrow>
            length (history (run_ops (open_image s img0) (map Push imgs))) = max_history \<and>
            history (run_ops (open_image s img0) (map Push imgs)) = drop 5 (img0 # butlast imgs))"
proof -
  have b: "bounded (run_ops s ops)"
    using assms by (intro run_ops_bounded) (simp add: bounded_def)
  have c: "current_image (open_image s img0) = Some img0"
    and h: "history (open_image s img0) = []"
    by (simp_all add: open_image_def update_preview_fields)
  have p: "history (run_ops (open_image s img0) (map Push imgs)) =
           drop (length (butlast (img0 # imgs)) - max_history) (butlast (img0 # imgs))"
    using run_pushes[OF c, of imgs] h by simp
  have q: "length imgs = max_history + 5 \<Longrightarrow>
            length (history (run_ops (open_image s img0) (map Push imgs))) = max_history \<and>
            history (run_ops (open_image s img0) (map Push imgs)) = drop 5 (img0 # butlast imgs)"
    unfolding p by (cases imgs) (auto simp: max_history_def)
  show ?thesis using b p q by (simp add: bounded_def)
qed

theorem history_stacks_bounded_witness:
  "length (history session) \<le> max_history \<and> length (redo_history session) \<le> max_history \<and>
   length (map photo [1, 2, 3, 4, 5, 6, 7, 8, 9, 10, 11, 12, 13, 14, 15]) = max_history + 5 \<and>
   length (history (run_ops session [Push (photo 1), Undo, Redo, Undo])) \<le> max_history \<and>
   length (redo_history (run_ops session [Push (photo 1), Undo, Redo, Undo])) \<le> max_history \<and>
   length (history (run_ops (open_image session (photo 0))
      (map Push (map photo [1, 2, 3, 4, 5, 6, 7, 8, 9, 10, 11, 12, 13, 14, 15])))) = 10 \<and>
   history (run_ops (open_image session (photo 0))
      (map Push (map photo [1, 2, 3, 4, 5, 6, 7, 8, 9, 10, 11, 12, 13, 14, 15])))
     = map photo [5, 6, 7, 8, 9, 10, 11, 12, 13, 14]"
proof -
  have a: "length (history session) \<le> max_history" "length (redo_history session) \<le> max_history"
    by (simp_all add: session_fields)
  have l: "length (map photo [1, 2, 3, 4, 5, 6, 7, 8, 9, 10, 11, 12, 13, 14, 15]) = max_history + 5"
    by (simp add: max_history_def)
  from history_stacks_bounded[OF a, of "[Push (photo 1), Undo, Redo, Undo]" "photo 0"
      "map photo [1, 2, 3, 4, 5, 6, 7, 8, 9, 10, 11, 12, 13, 14, 15]"] l a
  show ?thesis by (simp add: max_history_def)
qed

lemma redo_nothing:
  "redo_history s = [] \<Longrightarrow> redo s = s\<lparr>dialogs := dialogs s @ [NothingToRedo]\<rparr>"
  by (simp add: redo_def)

lemma push_history_redo: "current_image s = Some img \<Longrightarrow> redo_history (push_history s) = []"
  by (simp add: push_history_def Let_def)

lemma start_worker_fields:
  "redo_history (start_worker s t) = redo_history s"
  "history (start_worker s t) = history s"
  "current_image (start_worker s t) = current_image s"
  "running (start_worker s t) = running s @ [t]"
  "worker (start_worker s t) = Some t"
  by (simp_all add: start_worker_def)

lemma edits_clear_redo:
  assumes "current_image s = Some img"
  shows "redo_history (apply_scale s f) = []" "redo_history (apply_rotate s a) = []"
    "redo_history (apply_filter s) = []" "redo_history (apply_crop_rect s l t w h) = []"
    "redo_history (run_op s (Push img')) = []"
  using assms
  by (simp_all add: apply_scale_def apply_rotate_def apply_filter_def apply_crop_rect_def
      Let_def start_worker_fields update_preview_fields push_history_redo)

text \<open>
  Claim C6. With an image loaded, every push clears the redo stack, so a redo requested
  right after a fresh edit (a push, a crop, a dispatched scale, rotation or filter) only
  shows the ``nothing to redo'' message and changes nothing else, whatever undos came before.
\<close>

theorem fresh_edit_invalidates_redo:
  assumes "current_image s = Some img"
  shows "redo_history (push_history s) = [] \<and>
         redo (push_history s) =
           (push_history s)\<lparr>dialogs := dialogs (push_history s) @ [NothingToRedo]\<rparr> \<and>
         redo (apply_crop_rect s l t w h) =
           (apply_crop_rect s l t w h)\<lparr>dialogs := dialogs (apply_crop_rect s l t w h) @ [NothingToRedo]\<rparr> \<and>
         redo (apply_scale s f) =
           (apply_scale s f)\<lparr>dialogs := dialogs (apply_scale s f) @ [NothingToRedo]\<rparr> \<and>
         redo (apply_rotate s a) =
           (apply_rotate s a)\<lparr>dialogs := dialogs (apply_rotate s a) @ [NothingToRedo]\<rparr> \<and>
         redo (apply_filter s) =
           (apply_filter s)\<lparr>dialogs := dialogs (apply_filter s) @ [NothingToRedo]\<rparr> \<and>
         current_image (redo (apply_crop_rect s l t w h)) = current_image (apply_crop_rect s l t w h)"
  using edits_clear_redo[OF assms] push_history_redo[OF assms]
  by (simp add: redo_nothing)

theorem fresh_edit_invalidates_redo_witness:
  "current_image (undo (apply_crop_rect session 100 100 200 150)) = Some (photo 0) \<and>
   redo_history (undo (apply_crop_rect session 100 100 200 150)) \<noteq> [] \<and>
   redo_history (push_history (undo (apply_crop_rect session 100 100 200 150))) = [] \<and>
   dialogs (redo (apply_scale (undo (apply_crop_rect session 100 100 200 150)) (12 / 10)))
     = [NothingToRedo] \<and>
   current_image (redo (apply_crop_rect (undo (apply_crop_rect session 100 100 200 150)) 0 0 50 50))
     = current_image (apply_crop_rect (undo (apply_crop_rect session 100 100 200 150)) 0 0 50 50)"
proof -
  let ?u = "undo (apply_crop_rect session 100 100 200 150)"
  have h: "history (apply_crop_rect session 100 100 200 150) = [photo 0]"
    by (simp add: apply_crop_rect_def Let_def update_preview_fields session_fields
        push_history_def max_history_def)
  have c: "current_image ?u = Some (photo 0)"
    by (simp add: undo_def h update_preview_fields)
  have e: "redo_history (apply_crop_rect session 100 100 200 150) = []"
    using edits_clear_redo(4)[OF session_fields(1)] .
  have k: "current_image (apply_crop_rect session 100 100 200 150) \<noteq> None"
    by (simp add: apply_crop_rect_def Let_def update_preview_fields session_fields)
  have r: "redo_history ?u \<noteq> []"
    using k by (auto simp: undo_def h e update_preview_fields Let_def max_history_def)
  have d0: "dialogs (apply_crop_rect session 100 100 200 150) = []"
    by (simp add: apply_crop_rect_def Let_def update_preview_fields session_fields
        push_history_fields)
  have d: "dialogs ?u = []"
    by (simp add: undo_def h d0 update_preview_fields Let_def)
  have d2: "dialogs (apply_scale ?u (12 / 10)) = []"
    using c d by (simp add: apply_scale_def start_worker_def push_history_fields)
  from fresh_edit_invalidates_redo[OF c, of 0 0 50 50 "12 / 10" 0] c r d2
  show ?thesis by simp
qed

section \<open>Cropping\<close>

lemma ensure_rgb_size: "width (ensure_rgb img) = width img" "height (ensure_rgb img) = height img"
  by (simp_all add: ensure_rgb_def)

lemma crop_size:
  "width (crop img l t w h) =
     max (max 0 (min l (width img - 1)) + 1) (min (l + w) (width img)) - max 0 (min l (width img - 1))"
  "height (crop img l t w h) =
     max (max 0 (min t (height img - 1)) + 1) (min (t + h) (height img)) - max 0 (min t (height img - 1))"
  by (simp_all add: crop_def pil_crop_def Let_def ensure_rgb_size)

lemma crop_inside:
  "0 \<le> l \<Longrightarrow> 1 \<le> w \<Longrightarrow> l + w \<le> width img \<Longrightarrow> width (crop img l t w h) = w"
  "0 \<le> t \<Longrightarrow> 1 \<le> h \<Longrightarrow> t + h \<le> height img \<Longrightarrow> height (crop img l t w h) = h"
  by (simp_all add: crop_size)

lemma crop_clamped:
  "1 \<le> width img \<Longrightarrow> 1 \<le> width (crop img l t w h) \<and> width (crop img l t w h) \<le> width img"
  "1 \<le> height img \<Longrightarrow> 1 \<le> height (crop img l t w h) \<and> height (crop img l t w h) \<le> height img"
  by (auto simp: crop_size)

lemma apply_crop_rect_current:
  "current_image s = Some img \<Longrightarrow>
   current_image (apply_crop_rect s l t w h) =
     Some (crop img (max 0 (min l (width img - 1))) (max 0 (min t (height img - 1)))
            (max 1 (min w (width img - max 0 (min l (width img - 1)))))
            (max 1 (min h (height img - max 0 (min t (height img - 1))))))"
  by (simp add: apply_crop_rect_def Let_def update_preview_fields)

lemma apply_crop_rect_history:
  "current_image s = Some img \<Longrightarrow>
   history (apply_crop_rect s l t w h) = history (push_history s)"
  by (simp add: apply_crop_rect_def Let_def update_preview_fields)

lemma push_history_last:
  "current_image s = Some img \<Longrightarrow>
   history (push_history s) \<noteq> [] \<and> last (history (push_history s)) = img"
  by (cases "history s") (auto simp: push_history_def Let_def max_history_def)

lemma undo_restores:
  "history s \<noteq> [] \<Longrightarrow> current_image (undo s) = Some (last (history s))"
  by (simp add: undo_def Let_def update_preview_fields)

text \<open>
  Claim C7. For an image of positive size: a crop whose rectangle lies inside the image
  returns an image of exactly the requested width and height, also when requested through
  \<open>apply_crop_rect\<close>; a following undo restores the image that was cropped; and for
  arbitrary integer parameters the size of the result lies between 1 and the size of the
  image on both axes.
\<close>

theorem crop_returns_requested_size:
  assumes "1 \<le> width img" and "1 \<le> height img" and "current_image s = Some img"
  shows "(0 \<le> l \<and> 0 \<le> t \<and> 1 \<le> w \<and> 1 \<le> h \<and> l + w \<le> width img \<and> t + h \<le> height img \<longrightarrow>
            width (crop img l t w h) = w \<and> height (crop img l t w h) = h \<and>
            current_image (apply_crop_rect s l t w h) = Some (crop img l t w h)) \<and>
         current_image (undo (apply_crop_rect s l t w h)) = Some img \<and>
         1 \<le> width (crop img l t w h) \<and> width (crop img l t w h) \<le> width img \<and>
         1 \<le> height (crop img l t w h) \<and> height (crop img l t w h) \<le> height img \<and>
         (\<exists>r. current_image (apply_crop_rect s l t w h) = Some r \<and>
              1 \<le> width r \<and> width r \<le> width img \<and> 1 \<le> height r \<and> height r \<le> height img)"
proof -
  have a: "0 \<le> l \<and> 0 \<le> t \<and> 1 \<le> w \<and> 1 \<le> h \<and> l + w \<le> width img \<and> t + h \<le> height img \<longrightarrow>
            width (crop img l t w h) = w \<and> height (crop img l t w h) = h \<and>
            current_image (apply_crop_rect s l t w h) = Some (crop img l t w h)"
  proof
    assume i: "0 \<le> l \<and> 0 \<le> t \<and> 1 \<le> w \<and> 1 \<le> h \<and> l + w \<le> width img \<and> t + h \<le> height img"
    then have "max 0 (min l (width img - 1)) = l" "max 0 (min t (height img - 1)) = t"
      by auto
    moreover from i have "max 1 (min w (width img - l)) = w" "max 1 (min h (height img - t)) = h"
      by auto
    ultimately have "current_image (apply_crop_rect s l t w h) = Some (crop img l t w h)"
      using apply_crop_rect_current[OF assms(3), of l t w h] by simp
    with i show "width (crop img l t w h) = w \<and> height (crop img l t w h) = h \<and>
            current_image (apply_crop_rect s l t w h) = Some (crop img l t w h)"
      by (simp add: crop_inside)
  qed
  have b: "current_image (undo (apply_crop_rect s l t w h)) = Some img"
    using push_history_last[OF assms(3)] apply_crop_rect_history[OF assms(3), of l t w h]
    by (simp add: undo_restores)
  have c: "\<exists>r. current_image (apply_crop_rect s l t w h) = Some r \<and>
              1 \<le> width r \<and> width r \<le> width img \<and> 1 \<le> height r \<and> height r \<le> height img"
    using apply_crop_rect_current[OF assms(3), of l t w h] crop_clamped(1)[OF assms(1)]
      crop_clamped(2)[OF assms(2)] by simp
  show ?thesis using a b c crop_clamped(1)[OF assms(1)] crop_clamped(2)[OF assms(2)] by blast
qed

theorem crop_returns_requested_size_witness:
  "1 \<le> width (photo 0) \<and> 1 \<le> height (photo 0) \<and> current_image session = Some (photo 0) \<and>
   (0::int) \<le> 100 \<and> (1::int) \<le> 200 \<and> (1::int) \<le> 150 \<and>
   100 + 200 \<le> width (photo 0) \<and> 100 + 150 \<le> height (photo 0) \<and>
   width (photo 0) = 800 \<and> height (photo 0) = 600 \<and>
   width (crop (photo 0) 100 100 200 150) = 200 \<and> height (crop (photo 0) 100 100 200 150) = 150 \<and>
   current_image (apply_crop_rect session 100 100 200 150) = Some (crop (photo 0) 100 100 200 150) \<and>
   current_image (undo (apply_crop_rect session 100 100 200 150)) = Some (photo 0)"
proof -
  have a: "1 \<le> width (photo 0)" "1 \<le> height (photo 0)" by (simp_all add: photo_def)
  from crop_returns_requested_size[OF a session_fields(1), of 100 100 200 150]
  show ?thesis by (simp add: photo_def session_fields)
qed






section \<open>Scaling\<close>







section \<open>Dispatching edits\<close>

text \<open>
  Claim C1 fails on the code: \<open>apply_scale\<close> (like \<open>apply_rotate\<close>) never looks at
  \<open>self.worker\<close>. Requesting a scale by 1.2 twice in a row leaves two threads running at the
  same time, and both history entries and both threads hold the unscaled image.
\<close>

theorem second_scale_does_not_wait:
  "worker (apply_scale session (6 / 5)) = Some scale_task \<and>
   running (apply_scale session (6 / 5)) = [scale_task] \<and>
   running (apply_scale (apply_scale session (6 / 5)) (6 / 5)) = [scale_task, scale_task] \<and>
   length (running (apply_scale (apply_scale session (6 / 5)) (6 / 5))) = 2 \<and>
   history (apply_scale (apply_scale session (6 / 5)) (6 / 5)) = [photo 0, photo 0] \<and>
   current_image (apply_scale (apply_scale session (6 / 5)) (6 / 5)) = Some (photo 0) \<and>
   length (running (apply_rotate (apply_scale session (6 / 5)) 90)) = 2"
proof -
  let ?s1 = "apply_scale session (6 / 5)"
  have c1: "current_image ?s1 = Some (photo 0)"
    by (simp add: apply_scale_def session_fields start_worker_fields push_history_fields)
  have h1: "history ?s1 = [photo 0]"
    by (simp add: apply_scale_def session_fields start_worker_fields push_history_def
        Let_def max_history_def)
  have r1: "running ?s1 = [scale_task]" "worker ?s1 = Some scale_task"
    by (simp_all add: apply_scale_def session_fields start_worker_fields push_history_fields
        scale_task_def)
  have h2: "history (push_history ?s1) = [photo 0, photo 0]"
    by (simp add: push_history_def c1 h1 Let_def max_history_def)
  show ?thesis
    by (simp add: r1 apply_scale_def[of ?s1] apply_rotate_def[of ?s1] c1 start_worker_fields
        push_history_fields h2 scale_task_def Let_def)
qed

section \<open>The view after a commit\<close>








section \<open>Screen to image coordinates\<close>






section \<open>Zooming about a point\<close>

lemma wide_label_fields:
  "original_pixmap wide_label = Some \<lparr>pix_width = 1000, pix_height = 333\<rparr>"
  "zoom_factor wide_label = 1 / 10" "offset_x wide_label = 0" "offset_y wide_label = 50 / 111"
  "label_width wide_label = 800" "label_height wide_label = 600"
  by (simp_all add: wide_label_def open_image_def update_preview_def init_window_def Let_def
      set_original_pixmap_def clear_selection_def init_label_def pil_to_qpixmap_def wide_def
      set_zoom_factor_def int_of_float_def)

lemma wide_zoomed_fields:
  "original_pixmap (zoom_at_point wide_label (360, 300) True)
     = Some \<lparr>pix_width = 1000, pix_height = 333\<rparr>"
  "zoom_factor (zoom_at_point wide_label (360, 300) True) = 11 / 100"
  "offset_x (zoom_at_point wide_label (360, 300) True) = 4"
  "offset_y (zoom_at_point wide_label (360, 300) True) = - (2 / 37)"
  "label_width (zoom_at_point wide_label (360, 300) True) = 800"
  "label_height (zoom_at_point wide_label (360, 300) True) = 600"
  by (simp_all add: zoom_at_point_def wide_label_fields Let_def int_of_float_def)

text \<open>
  Claim C2 fails on the code. \<open>zoom_at_point\<close> places the image with the truncated sizes
  \<open>int(width * zoom)\<close>, while \<open>screen_to_image_coords\<close> uses the size of the
  aspect-preserving scaled pixmap, which can be narrower. For the 1000 x 333 image at zoom
  0.1 the label point (360, 300) shows image column 101 before one zoom step in about that
  point and column 93 after it.
\<close>

theorem zoom_moves_pivot:
  "zoom_factor wide_label = 1 / 10 \<and>
   screen_to_image_coords wide_label (360, 300) = Some (101, 167) \<and>
   zoom_factor (zoom_at_point wide_label (360, 300) True) = 11 / 100 \<and>
   screen_to_image_coords (zoom_at_point wide_label (360, 300) True) (360, 300) = Some (93, 167)"
  by (simp add: wide_label_fields wide_zoomed_fields screen_to_image_coords_def Let_def
      int_of_float_def scaled_def qsize_scaled_def c_div_def py_round_def)

lemma zoom_at_point_unfold:
  assumes "original_pixmap lbl = Some pm"
  shows "zoom_at_point lbl p zin =
     (if \<bar>zoom_target (zoom_factor lbl) zin - zoom_factor lbl\<bar> < 1 / 1000 then lbl
      else lbl\<lparr>zoom_factor := zoom_target (zoom_factor lbl) zin,
        offset_x := of_int (fst p)
          - (if 0 < int_of_float (of_int (pix_width pm) * zoom_factor lbl) \<and>
                0 < int_of_float (of_int (pix_height pm) * zoom_factor lbl)
             then (of_int (fst p)
                    - (of_int ((label_width lbl
                         - int_of_float (of_int (pix_width pm) * zoom_factor lbl)) div 2)
                       + offset_x lbl))
                  / of_int (int_of_float (of_int (pix_width pm) * zoom_factor lbl))
             else 1 / 2)
            * of_int (int_of_float (of_int (pix_width pm) * zoom_target (zoom_factor lbl) zin))
          - of_int ((label_width lbl
              - int_of_float (of_int (pix_width pm) * zoom_target (zoom_factor lbl) zin)) div 2),
        offset_y := of_int (snd p)
          - (if 0 < int_of_float (of_int (pix_width pm) * zoom_factor lbl) \<and>
                0 < int_of_float (of_int (pix_height pm) * zoom_factor lbl)
             then (of_int (snd p)
                    - (of_int ((label_height lbl
                         - int_of_float (of_int (pix_height pm) * zoom_factor lbl)) div 2)
                       + offset_y lbl))
                  / of_int (int_of_float (of_int (pix_height pm) * zoom_factor lbl))
             else 1 / 2)
            * of_int (int_of_float (of_int (pix_height pm) * zoom_target (zoom_factor lbl) zin))
          - of_int ((label_height lbl
              - int_of_float (of_int (pix_height pm) * zoom_target (zoom_factor lbl) zin)) div 2)\<rparr>)"
  unfolding zoom_at_point_def zoom_target_def Let_def assms option.case ..

lemma screen_to_image_coords_Some:
  assumes "original_pixmap lbl = Some pm"
    and "scaled pm (int_of_float (of_int (pix_width pm) * zoom_factor lbl))
            (int_of_float (of_int (pix_height pm) * zoom_factor lbl))
         = \<lparr>pix_width = sw, pix_height = sh\<rparr>"
    and "0 < sw" "0 < sh"
  shows "screen_to_image_coords lbl p =
     Some (max 0 (min (py_round ((of_int (fst p) - (of_int ((label_width lbl - sw) div 2)
                                   + offset_x lbl)) / of_int sw * of_int (pix_width pm)))
                   (pix_width pm - 1)),
           max 0 (min (py_round ((of_int (snd p) - (of_int ((label_height lbl - sh) div 2)
                                   + offset_y lbl)) / of_int sh * of_int (pix_height pm)))
                   (pix_height pm - 1)))"
  using assms(3,4) unfolding screen_to_image_coords_def Let_def assms(1) option.case assms(2)
  by simp

text \<open>
  Where the scaled pixmap has exactly the truncated size before and after the step, the
  pivot keeps its image point (in exact arithmetic).
\<close>

lemma zoom_keeps_pivot_when_sizes_agree:
  fixes lbl :: crop_label and pm :: pixmap and p :: qpoint and zin :: bool
  defines "sw \<equiv> int_of_float (of_int (pix_width pm) * zoom_factor lbl)"
      and "sh \<equiv> int_of_float (of_int (pix_height pm) * zoom_factor lbl)"
      and "nw \<equiv> int_of_float (of_int (pix_width pm) * zoom_factor (zoom_at_point lbl p zin))"
      and "nh \<equiv> int_of_float (of_int (pix_height pm) * zoom_factor (zoom_at_point lbl p zin))"
  assumes pm: "original_pixmap lbl = Some pm"
    and old: "scaled pm sw sh = \<lparr>pix_width = sw, pix_height = sh\<rparr>"
    and oldpos: "0 < sw" "0 < sh"
    and new: "scaled pm nw nh = \<lparr>pix_width = nw, pix_height = nh\<rparr>"
    and newpos: "0 < nw" "0 < nh"
  shows "screen_to_image_coords (zoom_at_point lbl p zin) p = screen_to_image_coords lbl p"
proof (cases "\<bar>zoom_target (zoom_factor lbl) zin - zoom_factor lbl\<bar> < 1 / 1000")
  case True
  then have "zoom_at_point lbl p zin = lbl"
    by (simp only: zoom_at_point_unfold[OF pm] if_True)
  then show ?thesis by simp
next
  case False
  let ?l = "zoom_at_point lbl p zin"
  let ?nz = "zoom_target (zoom_factor lbl) zin"
  have f: "zoom_factor ?l = ?nz" "original_pixmap ?l = Some pm"
    "label_width ?l = label_width lbl" "label_height ?l = label_height lbl"
    using False pm by (simp_all add: zoom_at_point_unfold[OF pm])
  have nwh: "nw = int_of_float (of_int (pix_width pm) * ?nz)"
            "nh = int_of_float (of_int (pix_height pm) * ?nz)"
    unfolding nw_def nh_def f(1) by simp_all
  have ox: "offset_x ?l = of_int (fst p) - (of_int (fst p)
              - (of_int ((label_width lbl - sw) div 2) + offset_x lbl)) / of_int sw
            * of_int nw - of_int ((label_width lbl - nw) div 2)"
    using False oldpos unfolding nwh sw_def sh_def
    by (simp add: zoom_at_point_unfold[OF pm])
  have oy: "offset_y ?l = of_int (snd p) - (of_int (snd p)
              - (of_int ((label_height lbl - sh) div 2) + offset_y lbl)) / of_int sh
            * of_int nh - of_int ((label_height lbl - nh) div 2)"
    using False oldpos unfolding nwh sw_def sh_def
    by (simp add: zoom_at_point_unfold[OF pm])
  have nz0: "real_of_int nw \<noteq> 0" "real_of_int nh \<noteq> 0"
    using newpos by simp_all
  have a: "screen_to_image_coords ?l p =
       Some (max 0 (min (py_round ((of_int (fst p) - (of_int ((label_width ?l - nw) div 2)
                                   + offset_x ?l)) / of_int nw * of_int (pix_width pm)))
                   (pix_width pm - 1)),
           max 0 (min (py_round ((of_int (snd p) - (of_int ((label_height ?l - nh) div 2)
                                   + offset_y ?l)) / of_int nh * of_int (pix_height pm)))
                   (pix_height pm - 1)))"
    unfolding nw_def nh_def
    by (rule screen_to_image_coords_Some[OF f(2) new[unfolded nw_def nh_def]
          newpos[unfolded nw_def nh_def]])
  have b: "screen_to_image_coords lbl p =
       Some (max 0 (min (py_round ((of_int (fst p) - (of_int ((label_width lbl - sw) div 2)
                                   + offset_x lbl)) / of_int sw * of_int (pix_width pm)))
                   (pix_width pm - 1)),
           max 0 (min (py_round ((of_int (snd p) - (of_int ((label_height lbl - sh) div 2)
                                   + offset_y lbl)) / of_int sh * of_int (pix_height pm)))
                   (pix_height pm - 1)))"
    unfolding sw_def sh_def
    by (rule screen_to_image_coords_Some[OF pm old[unfolded sw_def sh_def]
          oldpos[unfolded sw_def sh_def]])
  have x: "(of_int (fst p) - (of_int ((label_width ?l - nw) div 2) + offset_x ?l))
               / of_int nw
             = (of_int (fst p) - (of_int ((label_width lbl - sw) div 2) + offset_x lbl))
               / of_int sw"
    unfolding f(3) ox using nz0(1) by simp
  have y: "(of_int (snd p) - (of_int ((label_height ?l - nh) div 2) + offset_y ?l))
               / of_int nh
             = (of_int (snd p) - (of_int ((label_height lbl - sh) div 2) + offset_y lbl))
               / of_int sh"
    unfolding f(4) oy using nz0(2) by simp
  show ?thesis unfolding a b x y by (rule refl)
qed

section \<open>Selection rectangles under an aspect lock\<close>
























end
